theory Spec2Isabelle
  imports Main "HOL-Library.Multiset" "HOL-Library.Char_ord" "HOL-Library.List_Lexorder"
    "HOL-Library.Product_Lexorder"
begin

section \<open>Print audit: POS sales against the printer log (Appv3.py)\<close>

text \<open>
  The engine of \<^verbatim>\<open>Appv3.py\<close> is the block of pandas statements at lines 69-116 and
  136-149. Each statement is embedded as a function on lists of rows. Conventions:
  \<^item> text is ASCII (\<open>string\<close>); a text column entry is \<open>string option\<close>, \<open>None\<close>
    being a missing entry (NaN or None of the data frame);
  \<^item> the entries of the two numeric input columns are a \<open>cell\<close>: text, a number, or
    missing;
  \<^item> numbers are integral: a float column is \<open>pynum\<close>, \<open>NaN\<close> or an integer, a
    nullable key column is \<open>nat option\<close>. Rounding of floats is not modelled, so
    page counts and identifiers stand for values a float holds exactly;
  \<^item> the columns the program adds to a frame (\<^verbatim>\<open>DR_Num\<close>, \<^verbatim>\<open>Expected_Pages\<close>) are
    functions of the row;
  \<^item> a frame is the list of its rows, and each pandas call is modelled by what it does
    to the rows; the default sort of \<^verbatim>\<open>sort_values\<close> is not stable, so it is a relation
    between a frame and its possible results.
\<close>

subsection \<open>Characters and strings\<close>

definition isdigit :: "char \<Rightarrow> bool" where
  "isdigit c = (let n = (of_char c :: nat) in 48 \<le> n \<and> n \<le> 57)"

text \<open>Python's whitespace on ASCII (\<^verbatim>\<open>str.isspace\<close>, \<^verbatim>\<open>\s\<close>, \<^verbatim>\<open>str.strip\<close>): tab to
  carriage return, the separators 28 to 31, and the blank.\<close>

definition isspace :: "char \<Rightarrow> bool" where
  "isspace c = (let n = (of_char c :: nat) in (9 \<le> n \<and> n \<le> 13) \<or> (28 \<le> n \<and> n \<le> 31) \<or> n = 32)"

definition digit_val :: "char \<Rightarrow> nat" where
  "digit_val c = (of_char c :: nat) - 48"

text \<open>The value of a run of decimal digits, most significant first.\<close>

definition digits_val :: "string \<Rightarrow> nat" where
  "digits_val ds = foldl (\<lambda>acc c. 10 * acc + digit_val c) 0 ds"

text \<open>\<^verbatim>\<open>str.upper\<close> on ASCII.\<close>

definition upper_char :: "char \<Rightarrow> char" where
  "upper_char c = (let n = (of_char c :: nat) in if 97 \<le> n \<and> n \<le> 122 then char_of (n - 32) else c)"

definition upper :: "string \<Rightarrow> string" where
  "upper s = map upper_char s"

text \<open>\<^verbatim>\<open>str.strip()\<close>: whitespace removed at both ends.\<close>

definition strip :: "string \<Rightarrow> string" where
  "strip s = rev (dropWhile isspace (rev (dropWhile isspace s)))"

text \<open>\<^verbatim>\<open>s.replace(',', '')\<close>.\<close>

definition replace_comma :: "string \<Rightarrow> string" where
  "replace_comma s = filter (\<lambda>c. c \<noteq> CHR '','') s"

text \<open>\<^verbatim>\<open>p in s\<close>: \<open>p\<close> occurs in \<open>s\<close> as a contiguous run.\<close>

fun is_prefix :: "string \<Rightarrow> string \<Rightarrow> bool" where
  "is_prefix [] s = True"
| "is_prefix (p # ps) [] = False"
| "is_prefix (p # ps) (c # cs) = (p = c \<and> is_prefix ps cs)"

fun str_in :: "string \<Rightarrow> string \<Rightarrow> bool" where
  "str_in p [] = is_prefix p []"
| "str_in p (c # cs) = (is_prefix p (c # cs) \<or> str_in p cs)"

text \<open>\<^verbatim>\<open>Series.str.contains(pat, case=False, na=False)\<close> for a pattern that is an alternation
  of upper-case literals: a missing entry gives \<open>False\<close>.\<close>

definition str_contains :: "string list \<Rightarrow> string option \<Rightarrow> bool" where
  "str_contains alts x = (case x of None \<Rightarrow> False | Some s \<Rightarrow> list_ex (\<lambda>p. str_in p (upper s)) alts)"

subsection \<open>Identifier extraction\<close>

text \<open>\<^verbatim>\<open>astype(str)\<close> on a text column: a missing entry becomes the text \<^verbatim>\<open>nan\<close>.\<close>

definition astype_str :: "string option \<Rightarrow> string" where
  "astype_str x = (case x of None \<Rightarrow> ''nan'' | Some s \<Rightarrow> s)"

text \<open>An anchored match of \<^verbatim>\<open>DR(\d+)\<close> (\<open>ws = False\<close>) or \<^verbatim>\<open>DR\s*(\d+)\<close> (\<open>ws = True\<close>) at
  the head of the text: the captured digits as a number. The marker is matched as
  written, in upper case; the source passes no flag to the pattern.\<close>

definition match_DR :: "bool \<Rightarrow> string \<Rightarrow> nat option" where
  "match_DR ws s =
     (case s of
        d # r # rest \<Rightarrow>
          if d = CHR ''D'' \<and> r = CHR ''R'' then
            (let rest' = (if ws then dropWhile isspace rest else rest);
                 ds = takeWhile isdigit rest'
             in if ds = [] then None else Some (digits_val ds))
          else None
      | _ \<Rightarrow> None)"

text \<open>\<^verbatim>\<open>str.extract\<close> searches: the leftmost position where the pattern matches.\<close>

fun str_extract :: "bool \<Rightarrow> string \<Rightarrow> nat option" where
  "str_extract ws [] = None"
| "str_extract ws (c # cs) =
     (case match_DR ws (c # cs) of Some n \<Rightarrow> Some n | None \<Rightarrow> str_extract ws cs)"

subsection \<open>Numbers\<close>

text \<open>An entry of a float column: \<open>NaN\<close> or a number.\<close>

datatype pynum = NaN | Fin int

text \<open>An entry of an input column that should hold numbers.\<close>

datatype cell = Text string | Number int | Missing

text \<open>The whitespace the numeric parser of pandas skips at both ends of a text.\<close>

definition isspace_ascii :: "char \<Rightarrow> bool" where
  "isspace_ascii c = (let n = (of_char c :: nat) in (9 \<le> n \<and> n \<le> 13) \<or> n = 32)"

definition all_digits :: "string \<Rightarrow> bool" where
  "all_digits s = (s \<noteq> [] \<and> list_all isdigit s)"

text \<open>\<^verbatim>\<open>pd.to_numeric(s, errors='coerce')\<close> on a text: an integer literal with an optional
  sign gives its value, a text that is no number gives \<open>NaN\<close>. Literals of other floats
  (a fraction, an exponent, an infinity) have no value in \<open>pynum\<close> and are not modelled.\<close>

definition to_numeric :: "string \<Rightarrow> pynum" where
  "to_numeric s =
     (let t = rev (dropWhile isspace_ascii (rev (dropWhile isspace_ascii s)))
      in case t of
           [] \<Rightarrow> NaN
         | c # cs \<Rightarrow>
             if c = CHR ''-'' then (if all_digits cs then Fin (- int (digits_val cs)) else NaN)
             else if c = CHR ''+'' then (if all_digits cs then Fin (int (digits_val cs)) else NaN)
             else if all_digits t then Fin (int (digits_val t)) else NaN)"

text \<open>Python's truth value of a float: only zero is false, \<open>NaN\<close> is true.\<close>

definition truthy :: "pynum \<Rightarrow> bool" where
  "truthy x = (case x of NaN \<Rightarrow> True | Fin n \<Rightarrow> n \<noteq> 0)"

text \<open>\<^verbatim>\<open>a or b\<close>.\<close>

definition py_or :: "pynum \<Rightarrow> pynum \<Rightarrow> pynum" where
  "py_or a b = (if truthy a then a else b)"

text \<open>\<^verbatim>\<open>a * k\<close> and \<^verbatim>\<open>a - b\<close> on floats: \<open>NaN\<close> propagates.\<close>

definition times :: "pynum \<Rightarrow> int \<Rightarrow> pynum" where
  "times a k = (case a of NaN \<Rightarrow> NaN | Fin n \<Rightarrow> Fin (n * k))"

definition minus_num :: "int option \<Rightarrow> int option \<Rightarrow> pynum" where
  "minus_num a b = (case (a, b) of (Some x, Some y) \<Rightarrow> Fin (x - y) | _ \<Rightarrow> NaN)"

subsection \<open>Aggregations of \<^verbatim>\<open>groupby\<close>\<close>

text \<open>\<^verbatim>\<open>'first'\<close>: the first entry that is not missing.\<close>

fun agg_first :: "'a option list \<Rightarrow> 'a option" where
  "agg_first [] = None"
| "agg_first (None # xs) = agg_first xs"
| "agg_first (Some x # xs) = Some x"

text \<open>\<^verbatim>\<open>'sum'\<close>: \<open>NaN\<close> entries are skipped, the empty sum is 0.\<close>

fun agg_sum :: "pynum list \<Rightarrow> int" where
  "agg_sum [] = 0"
| "agg_sum (NaN # xs) = agg_sum xs"
| "agg_sum (Fin n # xs) = n + agg_sum xs"


text \<open>The keys of the groups: \<^verbatim>\<open>groupby\<close> drops the rows whose key is missing
  (\<^verbatim>\<open>dropna=True\<close>) and orders the groups by key (\<^verbatim>\<open>sort=True\<close>).\<close>

fun dropna :: "'a option list \<Rightarrow> 'a list" where
  "dropna [] = []"
| "dropna (None # xs) = dropna xs"
| "dropna (Some x # xs) = x # dropna xs"

definition group_keys :: "('k::linorder) option list \<Rightarrow> 'k list" where
  "group_keys ks = sort (remdups (dropna ks))"

subsection \<open>POS preparation (lines 70-88)\<close>

record pos_row =
  Invoice_No :: "string option"
  Item_Name :: "string option"
  Sales_Qty :: cell
  Customer_Name :: "string option"

text \<open>Line 72, the column \<^verbatim>\<open>DR_Num\<close> of \<^verbatim>\<open>pos_df\<close>.\<close>

definition pos_DR_Num :: "pos_row \<Rightarrow> nat option" where
  "pos_DR_Num r = str_extract False (astype_str (Invoice_No r))"

text \<open>Lines 75-76.\<close>

definition pos_print :: "pos_row list \<Rightarrow> pos_row list" where
  "pos_print pos_df =
     filter (\<lambda>r. \<not> str_contains [''PROOF'', ''STICKER''] (Item_Name r))
       (filter (\<lambda>r. str_contains [''DIGITAL PRINT''] (Item_Name r)) pos_df)"

text \<open>\<^verbatim>\<open>pd.to_numeric(str(c).replace(',', '').strip(), errors='coerce')\<close>. The text of a
  number parses back to the number, the text of a missing entry is no number.\<close>

definition qty_numeric :: "cell \<Rightarrow> pynum" where
  "qty_numeric c =
     (case c of
        Text s \<Rightarrow> to_numeric (strip (replace_comma s))
      | Number n \<Rightarrow> Fin n
      | Missing \<Rightarrow> NaN)"

text \<open>Lines 78-81.\<close>

definition calc_pages :: "pos_row \<Rightarrow> pynum" where
  "calc_pages row =
     (let qty = py_or (qty_numeric (Sales_Qty row)) (Fin 0)
      in if str_in ''2 SIDES'' (upper (astype_str (Item_Name row))) then times qty 2 else qty)"

record pos_group =
  g_DR_Num :: nat
  g_Invoice_No :: "string option"
  g_Customer_Name :: "string option"
  g_Expected_Pages :: int

text \<open>Lines 83-88: one row per key, in the order of the keys.\<close>

definition pos_grouped :: "pos_row list \<Rightarrow> pos_group list" where
  "pos_grouped pos_df =
     (let pp = pos_print pos_df
      in map (\<lambda>k. let rows = filter (\<lambda>r. pos_DR_Num r = Some k) pp
                  in \<lparr>g_DR_Num = k,
                      g_Invoice_No = agg_first (map Invoice_No rows),
                      g_Customer_Name = agg_first (map Customer_Name rows),
                      g_Expected_Pages = agg_sum (map calc_pages rows)\<rparr>)
           (group_keys (map pos_DR_Num pp)))"

subsection \<open>Printer log preparation (lines 90-109)\<close>

record 't fuji_row =
  Job_Name :: "string option"
  Printed_Pages :: cell
  Owner :: "string option"
  Recorded :: "'t option"

text \<open>Line 91, \<^verbatim>\<open>pd.to_numeric(column, errors='coerce').fillna(0)\<close>.\<close>

definition fillna0 :: "pynum \<Rightarrow> int" where
  "fillna0 x = (case x of NaN \<Rightarrow> 0 | Fin n \<Rightarrow> n)"

definition fuji_pages :: "'t fuji_row \<Rightarrow> int" where
  "fuji_pages r =
     fillna0 (case Printed_Pages r of Text s \<Rightarrow> to_numeric s | Number n \<Rightarrow> Fin n | Missing \<Rightarrow> NaN)"

text \<open>Line 93, the column \<^verbatim>\<open>DR_Num\<close> of \<^verbatim>\<open>fuji_df\<close>.\<close>

definition fuji_DR_Num :: "'t fuji_row \<Rightarrow> nat option" where
  "fuji_DR_Num r = str_extract True (astype_str (Job_Name r))"







text \<open>Lines 108-109.\<close>

definition fuji_with_dr :: "'t fuji_row list \<Rightarrow> 't fuji_row list" where
  "fuji_with_dr fuji_df = filter (\<lambda>r. fuji_DR_Num r \<noteq> None) fuji_df"

record fuji_group =
  f_DR_Num :: nat
  f_Printed_Pages :: int

definition fuji_grouped :: "'t fuji_row list \<Rightarrow> fuji_group list" where
  "fuji_grouped fuji_df =
     (let fw = fuji_with_dr fuji_df
      in map (\<lambda>k. \<lparr>f_DR_Num = k,
                   f_Printed_Pages = sum_list (map fuji_pages (filter (\<lambda>r. fuji_DR_Num r = Some k) fw))\<rparr>)
           (group_keys (map fuji_DR_Num fw)))"

subsection \<open>Reconciliation (lines 111-116)\<close>

datatype merge_ind = left_only | right_only | both

record merged_row =
  m_DR_Num :: nat
  m_Invoice_No :: "string option"
  m_Customer_Name :: "string option"
  m_Expected_Pages :: "int option"
  m_Printed_Pages :: "int option"
  m_merge :: merge_ind

definition left_row :: "pos_group \<Rightarrow> merged_row" where
  "left_row p =
     \<lparr>m_DR_Num = g_DR_Num p, m_Invoice_No = g_Invoice_No p,
      m_Customer_Name = g_Customer_Name p, m_Expected_Pages = Some (g_Expected_Pages p),
      m_Printed_Pages = None, m_merge = left_only\<rparr>"

definition right_row :: "fuji_group \<Rightarrow> merged_row" where
  "right_row f =
     \<lparr>m_DR_Num = f_DR_Num f, m_Invoice_No = None, m_Customer_Name = None,
      m_Expected_Pages = None, m_Printed_Pages = Some (f_Printed_Pages f),
      m_merge = right_only\<rparr>"

definition both_row :: "pos_group \<Rightarrow> fuji_group \<Rightarrow> merged_row" where
  "both_row p f =
     \<lparr>m_DR_Num = g_DR_Num p, m_Invoice_No = g_Invoice_No p,
      m_Customer_Name = g_Customer_Name p, m_Expected_Pages = Some (g_Expected_Pages p),
      m_Printed_Pages = Some (f_Printed_Pages f), m_merge = both\<rparr>"

text \<open>The rows of the outer join for one key: every pairing of the rows of both sides
  that carry the key, or the rows of the one side that has it.\<close>

definition merge_key :: "pos_group list \<Rightarrow> fuji_group list \<Rightarrow> nat \<Rightarrow> merged_row list" where
  "merge_key pg fg k =
     (let ls = filter (\<lambda>p. g_DR_Num p = k) pg;
          rs = filter (\<lambda>f. f_DR_Num f = k) fg
      in if rs = [] then map left_row ls
         else if ls = [] then map right_row rs
         else concat (map (\<lambda>l. map (both_row l) rs) ls))"

text \<open>Line 112, \<^verbatim>\<open>pd.merge(..., on='DR_Num', how='outer', indicator=True)\<close>: the keys of
  both frames, in ascending order.\<close>

definition merge_outer :: "pos_group list \<Rightarrow> fuji_group list \<Rightarrow> merged_row list" where
  "merge_outer pg fg =
     concat (map (merge_key pg fg) (sort (remdups (map g_DR_Num pg @ map f_DR_Num fg))))"

definition merged :: "pos_row list \<Rightarrow> 't fuji_row list \<Rightarrow> merged_row list" where
  "merged pos_df fuji_df = merge_outer (pos_grouped pos_df) (fuji_grouped fuji_df)"

text \<open>Line 113.\<close>

definition unprinted :: "pos_row list \<Rightarrow> 't fuji_row list \<Rightarrow> merged_row list" where
  "unprinted pos_df fuji_df = filter (\<lambda>r. m_merge r = left_only) (merged pos_df fuji_df)"

record matched_row =
  row :: merged_row
  Diff :: pynum

text \<open>Lines 114-115: the variable \<^verbatim>\<open>matched\<close> holds every row found on both sides, with
  its difference.\<close>

definition matched :: "pos_row list \<Rightarrow> 't fuji_row list \<Rightarrow> matched_row list" where
  "matched pos_df fuji_df =
     map (\<lambda>r. \<lparr>row = r, Diff = minus_num (m_Printed_Pages r) (m_Expected_Pages r)\<rparr>)
       (filter (\<lambda>r. m_merge r = both) (merged pos_df fuji_df))"

text \<open>Line 116.\<close>

definition mismatches :: "pos_row list \<Rightarrow> 't fuji_row list \<Rightarrow> matched_row list" where
  "mismatches pos_df fuji_df = filter (\<lambda>r. Diff r \<noteq> Fin 0) (matched pos_df fuji_df)"

subsection \<open>Proof section (lines 136-149)\<close>

text \<open>\<^verbatim>\<open>Diff.abs() > 10\<close>: a comparison with \<open>NaN\<close> is false.\<close>

definition abs_gt :: "pynum \<Rightarrow> int \<Rightarrow> bool" where
  "abs_gt x t = (case x of NaN \<Rightarrow> False | Fin n \<Rightarrow> \<bar>n\<bar> > t)"

text \<open>Line 136.\<close>

definition large_mismatches :: "pos_row list \<Rightarrow> 't fuji_row list \<Rightarrow> matched_row list" where
  "large_mismatches pos_df fuji_df = filter (\<lambda>r. abs_gt (Diff r) 10) (mismatches pos_df fuji_df)"

record 't proof_row =
  p_Recorded :: "'t option"
  p_Job_Name :: "string option"
  p_Printed_Pages :: int
  p_Owner :: "string option"

text \<open>Line 148, the rows of \<^verbatim>\<open>fuji_with_dr\<close> with the selected number, in their order.\<close>

definition proof_rows :: "nat \<Rightarrow> 't fuji_row list \<Rightarrow> 't proof_row list" where
  "proof_rows selected_dr fuji_df =
     map (\<lambda>r. \<lparr>p_Recorded = Recorded r, p_Job_Name = Job_Name r,
               p_Printed_Pages = fuji_pages r, p_Owner = Owner r\<rparr>)
       (filter (\<lambda>r. fuji_DR_Num r = Some selected_dr) (fuji_with_dr fuji_df))"

text \<open>Lines 145-149. The select box returns the label of one row of \<^verbatim>\<open>large_mismatches\<close>,
  and \<^verbatim>\<open>dr_map\<close> gives that row's number: \<open>sel\<close> is the chosen row. The table is shown
  under \<^verbatim>\<open>if selected_dr:\<close>; \<open>None\<close> is no table.\<close>

definition proof_table :: "matched_row \<Rightarrow> 't fuji_row list \<Rightarrow> 't proof_row list option" where
  "proof_table sel fuji_df =
     (let selected_dr = m_DR_Num (row sel)
      in if selected_dr \<noteq> 0 then Some (proof_rows selected_dr fuji_df) else None)"

subsection \<open>Containment regardless of case, as the specification words it\<close>

text \<open>The specification speaks of an item name that contains a phrase, letters compared
  without regard to case. \<open>spec_contains_ci\<close> states this on lower-cased texts; the
  program upper-cases the name, or lets the pattern ignore case.\<close>

definition lower_char :: "char \<Rightarrow> char" where
  "lower_char c = (let n = (of_char c :: nat) in if 65 \<le> n \<and> n \<le> 90 then char_of (n + 32) else c)"

definition lower :: "string \<Rightarrow> string" where
  "lower s = map lower_char s"

definition spec_contains_ci :: "string \<Rightarrow> string \<Rightarrow> bool" where
  "spec_contains_ci p s = str_in (lower p) (lower s)"

section \<open>Properties\<close>

subsection \<open>Identifier extraction\<close>










subsection \<open>Expected pages of a POS row\<close>

lemma of_char_upper: "(of_char (upper_char c) :: nat) =
   (if 97 \<le> (of_char c :: nat) \<and> (of_char c :: nat) \<le> 122 then of_char c - 32 else of_char c)"
proof -
  have "(of_char c :: nat) - 32 < 256"
    using nat_of_char_less_256[of c] by arith
  then show ?thesis by (simp add: upper_char_def Let_def)
qed

lemma of_char_lower: "(of_char (lower_char c) :: nat) =
   (if 65 \<le> (of_char c :: nat) \<and> (of_char c :: nat) \<le> 90 then of_char c + 32 else of_char c)"
  by (simp add: lower_char_def Let_def)

lemma lower_upper_char: "lower_char (upper_char c) = lower_char c"
proof -
  have "(of_char (lower_char (upper_char c)) :: nat) = of_char (lower_char c)"
    unfolding of_char_lower of_char_upper by auto
  then show ?thesis by (metis of_char_eq_iff)
qed

lemma upper_lower_char: "upper_char (lower_char c) = upper_char c"
proof -
  have "(of_char (upper_char (lower_char c)) :: nat) = of_char (upper_char c)"
    unfolding of_char_lower of_char_upper by auto
  then show ?thesis by (metis of_char_eq_iff)
qed

lemma is_prefix_map: "is_prefix p s \<Longrightarrow> is_prefix (map f p) (map f s)"
  by (induction p s rule: is_prefix.induct) auto

lemma str_in_map: "str_in p s \<Longrightarrow> str_in (map f p) (map f s)"
proof (induction s)
  case Nil
  then show ?case using is_prefix_map[of p "[]" f] by simp
next
  case (Cons c cs)
  then show ?case using is_prefix_map[of p "c # cs" f] by auto
qed

lemma str_in_upper_iff_lower: "str_in (upper p) (upper s) \<longleftrightarrow> str_in (lower p) (lower s)"
proof
  assume "str_in (upper p) (upper s)"
  from str_in_map[OF this, of lower_char] show "str_in (lower p) (lower s)"
    by (simp add: upper_def lower_def comp_def lower_upper_char)
next
  assume "str_in (lower p) (lower s)"
  from str_in_map[OF this, of upper_char] show "str_in (upper p) (upper s)"
    by (simp add: upper_def lower_def comp_def upper_lower_char)
qed

lemma py_or_zero: "py_or q (Fin 0) = q"
  by (cases q) (auto simp: py_or_def truthy_def)

lemma two_sides_upper: "''2 SIDES'' = upper ''2 sides''"
  by code_simp

lemma calc_pages_eq:
  "calc_pages r = (if spec_contains_ci ''2 sides'' (astype_str (Item_Name r))
       then times (qty_numeric (Sales_Qty r)) 2 else qty_numeric (Sales_Qty r))"
  unfolding calc_pages_def py_or_zero Let_def spec_contains_ci_def
  by (simp only: two_sides_upper str_in_upper_iff_lower)

text \<open>
  C9. For every POS row, the expected pages are the quantity as coerced to a number,
  times 2 when the item name contains \<^verbatim>\<open>2 sides\<close> in any mix of cases, and the coerced
  quantity itself otherwise. A one-sided item with quantity \<^verbatim>\<open>1,200\<close> contributes 1200,
  a two-sided item with quantity \<^verbatim>\<open>10\<close> contributes 20.
\<close>

theorem calc_pages_double_sided:
  "calc_pages r =
     (if spec_contains_ci ''2 sides'' (astype_str (Item_Name r))
      then times (qty_numeric (Sales_Qty r)) 2 else qty_numeric (Sales_Qty r)) \<and>
   (Sales_Qty r = Text ''1,200'' \<and> \<not> spec_contains_ci ''2 sides'' (astype_str (Item_Name r)) \<longrightarrow>
      calc_pages r = Fin 1200) \<and>
   (Sales_Qty r = Text ''10'' \<and> spec_contains_ci ''2 sides'' (astype_str (Item_Name r)) \<longrightarrow>
      calc_pages r = Fin 20)"
proof -
  have a: "qty_numeric (Text ''1,200'') = Fin 1200" by code_simp
  have b: "qty_numeric (Text ''10'') = Fin 10" by code_simp
  show ?thesis using a b by (simp add: calc_pages_eq times_def)
qed

theorem calc_pages_double_sided_witness:
  "Sales_Qty \<lparr>Invoice_No = Some ''DR7'', Item_Name = Some ''Digital Print A4 2 Sides'',
               Sales_Qty = Text ''10'', Customer_Name = Some ''Bob''\<rparr> = Text ''10'' \<and>
   spec_contains_ci ''2 sides'' (astype_str (Item_Name
      \<lparr>Invoice_No = Some ''DR7'', Item_Name = Some ''Digital Print A4 2 Sides'',
       Sales_Qty = Text ''10'', Customer_Name = Some ''Bob''\<rparr>)) \<and>
   calc_pages \<lparr>Invoice_No = Some ''DR7'', Item_Name = Some ''Digital Print A4 2 Sides'',
                Sales_Qty = Text ''10'', Customer_Name = Some ''Bob''\<rparr> = Fin 20"
proof -
  have h: "spec_contains_ci ''2 sides'' (astype_str (Item_Name
      \<lparr>Invoice_No = Some ''DR7'', Item_Name = Some ''Digital Print A4 2 Sides'',
       Sales_Qty = Text ''10'', Customer_Name = Some ''Bob''\<rparr>))" by code_simp
  have q: "Sales_Qty \<lparr>Invoice_No = Some ''DR7'', Item_Name = Some ''Digital Print A4 2 Sides'',
               Sales_Qty = Text ''10'', Customer_Name = Some ''Bob''\<rparr> = Text ''10''" by simp
  from calc_pages_double_sided[of "\<lparr>Invoice_No = Some ''DR7'', Item_Name = Some ''Digital Print A4 2 Sides'',
               Sales_Qty = Text ''10'', Customer_Name = Some ''Bob''\<rparr>"] h q
  show ?thesis by blast
qed

text \<open>
  C2, the program at a quantity that is no number. The text \<^verbatim>\<open>abc\<close> in \<^verbatim>\<open>Sales Qty\<close>
  is coerced to \<open>NaN\<close>; \<^verbatim>\<open>NaN or 0\<close> is \<open>NaN\<close>, since \<open>NaN\<close> is true in Python, so the
  row's expected pages are \<open>NaN\<close>, not 0, also after the doubling. A missing quantity
  behaves alike. The printer side, with \<^verbatim>\<open>fillna(0)\<close>, does give 0 for the same text.
\<close>

theorem calc_pages_unparsed_qty:
  "calc_pages \<lparr>Invoice_No = Some ''DR100'', Item_Name = Some ''DIGITAL PRINT 2 SIDES'',
                Sales_Qty = Text ''abc'', Customer_Name = Some ''Bob''\<rparr> = NaN \<and>
   calc_pages \<lparr>Invoice_No = Some ''DR100'', Item_Name = Some ''DIGITAL PRINT 1 SIDE'',
                Sales_Qty = Missing, Customer_Name = Some ''Bob''\<rparr> = NaN \<and>
   fuji_pages \<lparr>Job_Name = Some ''Job DR100'', Printed_Pages = Text ''abc'',
                Owner = Some ''Alice'', Recorded = Some (1::nat)\<rparr> = 0"
  by code_simp

subsection \<open>The outer join\<close>

lemma distinct_group_keys: "distinct (group_keys ks)"
  by (simp add: group_keys_def)

lemma pos_grouped_keys: "map g_DR_Num (pos_grouped pos_df) = group_keys (map pos_DR_Num (pos_print pos_df))"
  by (simp add: pos_grouped_def Let_def comp_def)

lemma fuji_grouped_keys: "map f_DR_Num (fuji_grouped fuji_df) = group_keys (map fuji_DR_Num (fuji_with_dr fuji_df))"
  by (simp add: fuji_grouped_def Let_def comp_def)

lemma filter_key_in:
  "distinct (map f xs) \<Longrightarrow> k \<in> set (map f xs) \<Longrightarrow> \<exists>x. filter (\<lambda>y. f y = k) xs = [x] \<and> f x = k \<and> x \<in> set xs"
proof (induction xs)
  case Nil then show ?case by simp
next
  case (Cons a xs)
  show ?case
  proof (cases "f a = k")
    case True
    with Cons.prems have "k \<notin> f ` set xs" by auto
    then have "filter (\<lambda>y. f y = k) xs = []" by (auto simp: filter_empty_conv)
    with True show ?thesis by simp
  next
    case False
    with Cons.prems have "distinct (map f xs)" "k \<in> set (map f xs)" by auto
    from Cons.IH[OF this] False show ?thesis by auto
  qed
qed

lemma filter_key_notin: "k \<notin> set (map f xs) \<Longrightarrow> filter (\<lambda>y. f y = k) xs = []"
  by (auto simp: filter_empty_conv)

lemma merge_key_single:
  assumes dp: "distinct (map g_DR_Num pg)" and df: "distinct (map f_DR_Num fg)"
    and k: "k \<in> set (map g_DR_Num pg) \<union> set (map f_DR_Num fg)"
  shows "\<exists>r. merge_key pg fg k = [r] \<and> m_DR_Num r = k \<and>
            m_merge r = (if k \<in> set (map f_DR_Num fg) then (if k \<in> set (map g_DR_Num pg) then both else right_only) else left_only) \<and>
            (m_merge r = both \<longrightarrow> (\<exists>p \<in> set pg. \<exists>f \<in> set fg. g_DR_Num p = k \<and> f_DR_Num f = k \<and> r = both_row p f))"
proof (cases "k \<in> set (map f_DR_Num fg)")
  case inF: True
  from filter_key_in[OF df inF] obtain f where f: "filter (\<lambda>y. f_DR_Num y = k) fg = [f]" "f_DR_Num f = k" "f \<in> set fg"
    by blast
  show ?thesis
  proof (cases "k \<in> set (map g_DR_Num pg)")
    case True
    from filter_key_in[OF dp True] obtain p where p: "filter (\<lambda>y. g_DR_Num y = k) pg = [p]" "g_DR_Num p = k" "p \<in> set pg"
      by blast
    have "merge_key pg fg k = [both_row p f]" using p f by (simp add: merge_key_def)
    moreover have "m_DR_Num (both_row p f) = k" "m_merge (both_row p f) = both"
      using p by (simp_all add: both_row_def)
    ultimately show ?thesis using True inF p f by auto
  next
    case False
    from filter_key_notin[OF False] have "filter (\<lambda>y. g_DR_Num y = k) pg = []" .
    then have "merge_key pg fg k = [right_row f]" using f by (simp add: merge_key_def)
    moreover have "m_DR_Num (right_row f) = k" "m_merge (right_row f) = right_only"
      using f by (simp_all add: right_row_def)
    ultimately show ?thesis using False inF by auto
  qed
next
  case notF: False
  with k have inP: "k \<in> set (map g_DR_Num pg)" by auto
  from filter_key_in[OF dp inP] obtain p where p: "filter (\<lambda>y. g_DR_Num y = k) pg = [p]" "g_DR_Num p = k" "p \<in> set pg"
    by blast
  from filter_key_notin[OF notF] have "filter (\<lambda>y. f_DR_Num y = k) fg = []" .
  then have "merge_key pg fg k = [left_row p]" using p by (simp add: merge_key_def)
  moreover have "m_DR_Num (left_row p) = k" "m_merge (left_row p) = left_only"
    using p by (simp_all add: left_row_def)
  ultimately show ?thesis using notF by auto
qed

lemma concat_singletons:
  "(\<And>k. k \<in> set ks \<Longrightarrow> \<exists>r. g k = [r] \<and> key r = k \<and> Q k r) \<Longrightarrow>
     map key (concat (map g ks)) = ks \<and> (\<forall>r \<in> set (concat (map g ks)). Q (key r) r)"
proof (induction ks)
  case Nil then show ?case by simp
next
  case (Cons a ks)
  from Cons.prems[of a] obtain r where r: "g a = [r]" "key r = a" "Q a r" by auto
  have "map key (concat (map g ks)) = ks \<and> (\<forall>r \<in> set (concat (map g ks)). Q (key r) r)"
    by (rule Cons.IH) (simp add: Cons.prems)
  with r show ?case by auto
qed

lemma merge_outer_rows:
  assumes dp: "distinct (map g_DR_Num pg)" and df: "distinct (map f_DR_Num fg)"
  shows "map m_DR_Num (merge_outer pg fg) = sort (remdups (map g_DR_Num pg @ map f_DR_Num fg))"
    and "\<forall>r \<in> set (merge_outer pg fg).
            m_merge r = (if (m_DR_Num r) \<in> set (map f_DR_Num fg) then (if (m_DR_Num r) \<in> set (map g_DR_Num pg) then both else right_only) else left_only) \<and>
            (m_merge r = both \<longrightarrow> (\<exists>p \<in> set pg. \<exists>f \<in> set fg. g_DR_Num p = m_DR_Num r \<and> f_DR_Num f = m_DR_Num r \<and> r = both_row p f))"
proof -
  let ?ks = "sort (remdups (map g_DR_Num pg @ map f_DR_Num fg))"
  let ?Q = "\<lambda>k r. m_merge r = (if k \<in> set (map f_DR_Num fg) then (if k \<in> set (map g_DR_Num pg) then both else right_only) else left_only) \<and>
            (m_merge r = both \<longrightarrow> (\<exists>p \<in> set pg. \<exists>f \<in> set fg. g_DR_Num p = k \<and> f_DR_Num f = k \<and> r = both_row p f))"
  have "map m_DR_Num (concat (map (merge_key pg fg) ?ks)) = ?ks \<and>
        (\<forall>r \<in> set (concat (map (merge_key pg fg) ?ks)). ?Q (m_DR_Num r) r)"
  proof (rule concat_singletons)
    fix k assume "k \<in> set ?ks"
    then have "k \<in> set (map g_DR_Num pg) \<union> set (map f_DR_Num fg)" by simp
    from merge_key_single[OF dp df this]
    show "\<exists>r. merge_key pg fg k = [r] \<and> m_DR_Num r = k \<and> ?Q k r" by blast
  qed
  then show "map m_DR_Num (merge_outer pg fg) = ?ks"
    and "\<forall>r \<in> set (merge_outer pg fg).
            m_merge r = (if (m_DR_Num r) \<in> set (map f_DR_Num fg) then (if (m_DR_Num r) \<in> set (map g_DR_Num pg) then both else right_only) else left_only) \<and>
            (m_merge r = both \<longrightarrow> (\<exists>p \<in> set pg. \<exists>f \<in> set fg. g_DR_Num p = m_DR_Num r \<and> f_DR_Num f = m_DR_Num r \<and> r = both_row p f))"
    unfolding merge_outer_def by blast+
qed

lemma length_by_ind:
  "length (filter (\<lambda>r. m_merge r = left_only) ms) + length (filter (\<lambda>r. m_merge r = both) ms) +
   length (filter (\<lambda>r. m_merge r = right_only) ms) = length ms"
proof (induction ms)
  case Nil then show ?case by simp
next
  case (Cons a ms)
  then show ?case by (cases "m_merge a") auto
qed


lemma merged_keys:
  "map m_DR_Num (merged pos_df fuji_df) =
     sort (remdups (map g_DR_Num (pos_grouped pos_df) @ map f_DR_Num (fuji_grouped fuji_df)))"
  unfolding merged_def
  by (rule merge_outer_rows(1)) (simp_all add: pos_grouped_keys fuji_grouped_keys distinct_group_keys)

lemma merged_ind:
  "r \<in> set (merged pos_df fuji_df) \<Longrightarrow>
     m_merge r =
       (if m_DR_Num r \<in> set (map f_DR_Num (fuji_grouped fuji_df))
        then (if m_DR_Num r \<in> set (map g_DR_Num (pos_grouped pos_df)) then both else right_only)
        else left_only)"
  using merge_outer_rows(2)[of "pos_grouped pos_df" "fuji_grouped fuji_df"]
  unfolding merged_def
  by (simp add: pos_grouped_keys fuji_grouped_keys distinct_group_keys)

lemma merged_both:
  "r \<in> set (merged pos_df fuji_df) \<Longrightarrow> m_merge r = both \<Longrightarrow>
     \<exists>p \<in> set (pos_grouped pos_df). \<exists>f \<in> set (fuji_grouped fuji_df).
        g_DR_Num p = m_DR_Num r \<and> f_DR_Num f = m_DR_Num r \<and> r = both_row p f"
  using merge_outer_rows(2)[of "pos_grouped pos_df" "fuji_grouped fuji_df"]
  unfolding merged_def
  by (simp add: pos_grouped_keys fuji_grouped_keys distinct_group_keys)

lemma merged_key_set:
  "m_DR_Num ` set (merged pos_df fuji_df) =
     set (map g_DR_Num (pos_grouped pos_df)) \<union> set (map f_DR_Num (fuji_grouped fuji_df))"
proof -
  have "set (map m_DR_Num (merged pos_df fuji_df)) =
     set (map g_DR_Num (pos_grouped pos_df)) \<union> set (map f_DR_Num (fuji_grouped fuji_df))"
    unfolding merged_keys by simp
  then show ?thesis by simp
qed

lemma merged_distinct: "distinct (map m_DR_Num (merged pos_df fuji_df))"
  unfolding merged_keys by simp

lemma merged_length:
  "length (merged pos_df fuji_df) =
     card (set (map g_DR_Num (pos_grouped pos_df)) \<union> set (map f_DR_Num (fuji_grouped fuji_df)))"
proof -
  have "length (merged pos_df fuji_df) = length (map m_DR_Num (merged pos_df fuji_df))" by simp
  also have "\<dots> = card (set (map m_DR_Num (merged pos_df fuji_df)))"
    using merged_distinct[of pos_df fuji_df] by (simp only: distinct_card)
  also have "\<dots> = card (set (map g_DR_Num (pos_grouped pos_df)) \<union> set (map f_DR_Num (fuji_grouped fuji_df)))"
    using merged_key_set[of pos_df fuji_df] by simp
  finally show ?thesis .
qed

lemma disjoint_filter_images:
  assumes "distinct (map f xs)" and "\<And>x. x \<in> set xs \<Longrightarrow> \<not> (P x \<and> Q x)"
  shows "f ` set (filter P xs) \<inter> f ` set (filter Q xs) = {}"
proof -
  from assms(1) have inj: "inj_on f (set xs)" by (simp add: distinct_map)
  show ?thesis
  proof (rule ccontr)
    assume "f ` set (filter P xs) \<inter> f ` set (filter Q xs) \<noteq> {}"
    then obtain x y where x: "x \<in> set xs" "P x" and y: "y \<in> set xs" "Q y" and e: "f x = f y"
      by auto
    from inj e x(1) y(1) have "x = y" by (rule inj_onD)
    with x y assms(2)[of x] show False by simp
  qed
qed

lemma matched_as_map:
  "filter (\<lambda>r. Diff r = Fin 0) (matched pos_df fuji_df) =
     map (\<lambda>r. \<lparr>row = r, Diff = minus_num (m_Printed_Pages r) (m_Expected_Pages r)\<rparr>)
       (filter (\<lambda>r. m_merge r = both \<and> minus_num (m_Printed_Pages r) (m_Expected_Pages r) = Fin 0)
          (merged pos_df fuji_df))"
  "mismatches pos_df fuji_df =
     map (\<lambda>r. \<lparr>row = r, Diff = minus_num (m_Printed_Pages r) (m_Expected_Pages r)\<rparr>)
       (filter (\<lambda>r. m_merge r = both \<and> minus_num (m_Printed_Pages r) (m_Expected_Pages r) \<noteq> Fin 0)
          (merged pos_df fuji_df))"
  by (simp_all add: matched_def mismatches_def filter_map comp_def conj_commute)

lemma matched_keys:
  "map (\<lambda>r. m_DR_Num (row r)) (filter (\<lambda>r. Diff r = Fin 0) (matched pos_df fuji_df)) =
     map m_DR_Num
       (filter (\<lambda>r. m_merge r = both \<and> minus_num (m_Printed_Pages r) (m_Expected_Pages r) = Fin 0)
          (merged pos_df fuji_df))"
  "map (\<lambda>r. m_DR_Num (row r)) (mismatches pos_df fuji_df) =
     map m_DR_Num
       (filter (\<lambda>r. m_merge r = both \<and> minus_num (m_Printed_Pages r) (m_Expected_Pages r) \<noteq> Fin 0)
          (merged pos_df fuji_df))"
  by (simp_all add: matched_as_map comp_def)

lemma partition_sizes:
  "length (unprinted pos_df fuji_df) +
   length (filter (\<lambda>r. Diff r = Fin 0) (matched pos_df fuji_df)) +
   length (mismatches pos_df fuji_df) +
   length (filter (\<lambda>r. m_merge r = right_only) (merged pos_df fuji_df)) =
   card (set (map g_DR_Num (pos_grouped pos_df)) \<union> set (map f_DR_Num (fuji_grouped fuji_df)))"
proof -
  have "length (filter (\<lambda>r. Diff r = Fin 0) (matched pos_df fuji_df)) +
        length (mismatches pos_df fuji_df) = length (matched pos_df fuji_df)"
    unfolding mismatches_def by (rule sum_length_filter_compl)
  also have "\<dots> = length (filter (\<lambda>r. m_merge r = both) (merged pos_df fuji_df))"
    by (simp add: matched_def)
  finally have m: "length (filter (\<lambda>r. Diff r = Fin 0) (matched pos_df fuji_df)) +
        length (mismatches pos_df fuji_df) =
        length (filter (\<lambda>r. m_merge r = both) (merged pos_df fuji_df))" .
  have "length (unprinted pos_df fuji_df) +
        length (filter (\<lambda>r. m_merge r = both) (merged pos_df fuji_df)) +
        length (filter (\<lambda>r. m_merge r = right_only) (merged pos_df fuji_df)) =
        length (merged pos_df fuji_df)"
    unfolding unprinted_def by (rule length_by_ind)
  with m show ?thesis unfolding merged_length[symmetric] by linarith
qed

lemma partition_distinct:
  "distinct (map m_DR_Num (unprinted pos_df fuji_df) @
             map (\<lambda>r. m_DR_Num (row r)) (filter (\<lambda>r. Diff r = Fin 0) (matched pos_df fuji_df)) @
             map (\<lambda>r. m_DR_Num (row r)) (mismatches pos_df fuji_df) @
             map m_DR_Num (filter (\<lambda>r. m_merge r = right_only) (merged pos_df fuji_df)))"
proof -
  let ?ms = "merged pos_df fuji_df"
  let ?D = "\<lambda>r. minus_num (m_Printed_Pages r) (m_Expected_Pages r)"
  let ?P1 = "\<lambda>r. m_merge r = left_only"
  let ?P2 = "\<lambda>r. m_merge r = both \<and> ?D r = Fin 0"
  let ?P3 = "\<lambda>r. m_merge r = both \<and> ?D r \<noteq> Fin 0"
  let ?P4 = "\<lambda>r. m_merge r = right_only"
  note d = merged_distinct[of pos_df fuji_df]
  have d1: "distinct (map m_DR_Num (filter ?P1 ?ms))" using d by (rule distinct_map_filter)
  have d2: "distinct (map m_DR_Num (filter ?P2 ?ms))" using d by (rule distinct_map_filter)
  have d3: "distinct (map m_DR_Num (filter ?P3 ?ms))" using d by (rule distinct_map_filter)
  have d4: "distinct (map m_DR_Num (filter ?P4 ?ms))" using d by (rule distinct_map_filter)
  have i12: "m_DR_Num ` set (filter ?P1 ?ms) \<inter> m_DR_Num ` set (filter ?P2 ?ms) = {}"
    using d by (rule disjoint_filter_images) simp
  have i13: "m_DR_Num ` set (filter ?P1 ?ms) \<inter> m_DR_Num ` set (filter ?P3 ?ms) = {}"
    using d by (rule disjoint_filter_images) simp
  have i14: "m_DR_Num ` set (filter ?P1 ?ms) \<inter> m_DR_Num ` set (filter ?P4 ?ms) = {}"
    using d by (rule disjoint_filter_images) simp
  have i23: "m_DR_Num ` set (filter ?P2 ?ms) \<inter> m_DR_Num ` set (filter ?P3 ?ms) = {}"
    using d by (rule disjoint_filter_images) simp
  have i24: "m_DR_Num ` set (filter ?P2 ?ms) \<inter> m_DR_Num ` set (filter ?P4 ?ms) = {}"
    using d by (rule disjoint_filter_images) simp
  have i34: "m_DR_Num ` set (filter ?P3 ?ms) \<inter> m_DR_Num ` set (filter ?P4 ?ms) = {}"
    using d by (rule disjoint_filter_images) simp
  have "distinct (map m_DR_Num (filter ?P1 ?ms) @ map m_DR_Num (filter ?P2 ?ms) @
                  map m_DR_Num (filter ?P3 ?ms) @ map m_DR_Num (filter ?P4 ?ms))"
    using d1 d2 d3 d4 i12 i13 i14 i23 i24 i34
    by (simp only: distinct_append set_append set_map Int_Un_distrib Un_empty simp_thms)
  then show ?thesis by (simp only: matched_keys unprinted_def)
qed

lemma partition_unprinted:
  "set (map m_DR_Num (unprinted pos_df fuji_df)) =
     set (map g_DR_Num (pos_grouped pos_df)) - set (map f_DR_Num (fuji_grouped fuji_df))"
proof -
  let ?P = "set (map g_DR_Num (pos_grouped pos_df))"
  let ?F = "set (map f_DR_Num (fuji_grouped fuji_df))"
  have "m_DR_Num ` {r \<in> set (merged pos_df fuji_df). m_merge r = left_only} = ?P - ?F"
  proof (intro set_eqI iffI)
    fix k assume "k \<in> m_DR_Num ` {r \<in> set (merged pos_df fuji_df). m_merge r = left_only}"
    then obtain r where r: "r \<in> set (merged pos_df fuji_df)" "m_merge r = left_only" "k = m_DR_Num r"
      by auto
    from r(1) have "m_DR_Num r \<in> ?P \<union> ?F" unfolding merged_key_set[symmetric] by simp
    moreover from merged_ind[OF r(1)] r(2) have "m_DR_Num r \<notin> ?F" by (auto split: if_splits)
    ultimately show "k \<in> ?P - ?F" using r(3) by auto
  next
    fix k assume k: "k \<in> ?P - ?F"
    then have "k \<in> m_DR_Num ` set (merged pos_df fuji_df)" unfolding merged_key_set by auto
    then obtain r where r: "r \<in> set (merged pos_df fuji_df)" "k = m_DR_Num r" by auto
    from merged_ind[OF r(1)] k r(2) have "m_merge r = left_only" by auto
    with r show "k \<in> m_DR_Num ` {r \<in> set (merged pos_df fuji_df). m_merge r = left_only}" by auto
  qed
  then show ?thesis by (simp add: unprinted_def)
qed

lemma partition_printer_only:
  "set (map m_DR_Num (filter (\<lambda>r. m_merge r = right_only) (merged pos_df fuji_df))) =
     set (map f_DR_Num (fuji_grouped fuji_df)) - set (map g_DR_Num (pos_grouped pos_df))"
proof -
  let ?P = "set (map g_DR_Num (pos_grouped pos_df))"
  let ?F = "set (map f_DR_Num (fuji_grouped fuji_df))"
  have "m_DR_Num ` {r \<in> set (merged pos_df fuji_df). m_merge r = right_only} = ?F - ?P"
  proof (intro set_eqI iffI)
    fix k assume "k \<in> m_DR_Num ` {r \<in> set (merged pos_df fuji_df). m_merge r = right_only}"
    then obtain r where r: "r \<in> set (merged pos_df fuji_df)" "m_merge r = right_only" "k = m_DR_Num r"
      by auto
    from merged_ind[OF r(1)] r(2) have "m_DR_Num r \<in> ?F \<and> m_DR_Num r \<notin> ?P"
      by (auto split: if_splits)
    then show "k \<in> ?F - ?P" using r(3) by auto
  next
    fix k assume k: "k \<in> ?F - ?P"
    then have "k \<in> m_DR_Num ` set (merged pos_df fuji_df)" unfolding merged_key_set by auto
    then obtain r where r: "r \<in> set (merged pos_df fuji_df)" "k = m_DR_Num r" by auto
    from merged_ind[OF r(1)] k r(2) have "m_merge r = right_only" by auto
    with r show "k \<in> m_DR_Num ` {r \<in> set (merged pos_df fuji_df). m_merge r = right_only}" by auto
  qed
  then show ?thesis by simp
qed

lemma partition_both:
  "set (map (\<lambda>r. m_DR_Num (row r)) (filter (\<lambda>r. Diff r = Fin 0) (matched pos_df fuji_df))) \<union>
   set (map (\<lambda>r. m_DR_Num (row r)) (mismatches pos_df fuji_df)) =
     set (map g_DR_Num (pos_grouped pos_df)) \<inter> set (map f_DR_Num (fuji_grouped fuji_df))"
proof -
  let ?P = "set (map g_DR_Num (pos_grouped pos_df))"
  let ?F = "set (map f_DR_Num (fuji_grouped fuji_df))"
  let ?D = "\<lambda>r. minus_num (m_Printed_Pages r) (m_Expected_Pages r)"
  have u: "set (map (\<lambda>r. m_DR_Num (row r)) (filter (\<lambda>r. Diff r = Fin 0) (matched pos_df fuji_df))) \<union>
        set (map (\<lambda>r. m_DR_Num (row r)) (mismatches pos_df fuji_df)) =
        m_DR_Num ` {r \<in> set (merged pos_df fuji_df). m_merge r = both}"
    unfolding matched_keys by auto
  have "m_DR_Num ` {r \<in> set (merged pos_df fuji_df). m_merge r = both} = ?P \<inter> ?F"
  proof (intro set_eqI iffI)
    fix k assume "k \<in> m_DR_Num ` {r \<in> set (merged pos_df fuji_df). m_merge r = both}"
    then obtain r where r: "r \<in> set (merged pos_df fuji_df)" "m_merge r = both" "k = m_DR_Num r"
      by auto
    from merged_ind[OF r(1)] r(2) have "m_DR_Num r \<in> ?F \<and> m_DR_Num r \<in> ?P"
      by (auto split: if_splits)
    then show "k \<in> ?P \<inter> ?F" using r(3) by auto
  next
    fix k assume k: "k \<in> ?P \<inter> ?F"
    then have "k \<in> m_DR_Num ` set (merged pos_df fuji_df)" unfolding merged_key_set by auto
    then obtain r where r: "r \<in> set (merged pos_df fuji_df)" "k = m_DR_Num r" by auto
    from merged_ind[OF r(1)] k r(2) have "m_merge r = both" by auto
    with r show "k \<in> m_DR_Num ` {r \<in> set (merged pos_df fuji_df). m_merge r = both}" by auto
  qed
  with u show ?thesis by simp
qed

lemma matched_diff:
  assumes "r \<in> set (matched pos_df fuji_df)"
  shows "\<exists>p \<in> set (pos_grouped pos_df). \<exists>f \<in> set (fuji_grouped fuji_df).
           g_DR_Num p = m_DR_Num (row r) \<and> f_DR_Num f = m_DR_Num (row r) \<and>
           m_Expected_Pages (row r) = Some (g_Expected_Pages p) \<and>
           m_Printed_Pages (row r) = Some (f_Printed_Pages f) \<and>
           Diff r = Fin (f_Printed_Pages f - g_Expected_Pages p)"
proof -
  from assms obtain r0 where r0: "r0 \<in> set (merged pos_df fuji_df)" "m_merge r0 = both"
    and r: "r = \<lparr>row = r0, Diff = minus_num (m_Printed_Pages r0) (m_Expected_Pages r0)\<rparr>"
    by (auto simp: matched_def)
  from merged_both[OF r0] obtain p f where pf: "p \<in> set (pos_grouped pos_df)"
    "f \<in> set (fuji_grouped fuji_df)" "g_DR_Num p = m_DR_Num r0" "f_DR_Num f = m_DR_Num r0"
    "r0 = both_row p f" by blast
  have e: "m_Expected_Pages r0 = Some (g_Expected_Pages p)" "m_Printed_Pages r0 = Some (f_Printed_Pages f)"
    using pf(5) by (simp_all add: both_row_def)
  have rr: "row r = r0" using r by simp
  have dd: "Diff r = Fin (f_Printed_Pages f - g_Expected_Pages p)"
    using r e by (simp add: minus_num_def)
  have "g_DR_Num p = m_DR_Num (row r) \<and> f_DR_Num f = m_DR_Num (row r) \<and>
        m_Expected_Pages (row r) = Some (g_Expected_Pages p) \<and>
        m_Printed_Pages (row r) = Some (f_Printed_Pages f) \<and>
        Diff r = Fin (f_Printed_Pages f - g_Expected_Pages p)"
    using pf(3,4) e dd unfolding rr by simp
  with pf(1,2) show ?thesis by blast
qed

text \<open>
  C4. The rows of the join fall into four lists: the unprinted rows (POS only), the
  rows found on both sides with difference 0, the mismatches (both sides, difference
  not 0), and the rows of the printer log only. Their sizes add up to the number of
  distinct identifiers of the aggregated POS groups and the aggregated printer groups;
  no identifier occurs twice over the four lists; the unprinted identifiers are those
  of POS groups without a printer group, the identifiers found on both sides those with
  both, the printer-only identifiers those of printer groups without a POS group; and
  the difference of a row found on both sides is the printed total minus the expected
  total of its two groups.
\<close>

theorem reconciliation_partition:
  "length (unprinted pos_df fuji_df) +
   length (filter (\<lambda>r. Diff r = Fin 0) (matched pos_df fuji_df)) +
   length (mismatches pos_df fuji_df) +
   length (filter (\<lambda>r. m_merge r = right_only) (merged pos_df fuji_df)) =
   card (set (map g_DR_Num (pos_grouped pos_df)) \<union> set (map f_DR_Num (fuji_grouped fuji_df))) \<and>
   distinct (map m_DR_Num (unprinted pos_df fuji_df) @
             map (\<lambda>r. m_DR_Num (row r)) (filter (\<lambda>r. Diff r = Fin 0) (matched pos_df fuji_df)) @
             map (\<lambda>r. m_DR_Num (row r)) (mismatches pos_df fuji_df) @
             map m_DR_Num (filter (\<lambda>r. m_merge r = right_only) (merged pos_df fuji_df))) \<and>
   set (map m_DR_Num (unprinted pos_df fuji_df)) =
     set (map g_DR_Num (pos_grouped pos_df)) - set (map f_DR_Num (fuji_grouped fuji_df)) \<and>
   set (map (\<lambda>r. m_DR_Num (row r)) (filter (\<lambda>r. Diff r = Fin 0) (matched pos_df fuji_df))) \<union>
   set (map (\<lambda>r. m_DR_Num (row r)) (mismatches pos_df fuji_df)) =
     set (map g_DR_Num (pos_grouped pos_df)) \<inter> set (map f_DR_Num (fuji_grouped fuji_df)) \<and>
   set (map m_DR_Num (filter (\<lambda>r. m_merge r = right_only) (merged pos_df fuji_df))) =
     set (map f_DR_Num (fuji_grouped fuji_df)) - set (map g_DR_Num (pos_grouped pos_df)) \<and>
   (\<forall>r \<in> set (matched pos_df fuji_df).
      \<exists>p \<in> set (pos_grouped pos_df). \<exists>f \<in> set (fuji_grouped fuji_df).
        g_DR_Num p = m_DR_Num (row r) \<and> f_DR_Num f = m_DR_Num (row r) \<and>
        Diff r = Fin (f_Printed_Pages f - g_Expected_Pages p))"
proof -
  have m: "\<forall>r \<in> set (matched pos_df fuji_df).
      \<exists>p \<in> set (pos_grouped pos_df). \<exists>f \<in> set (fuji_grouped fuji_df).
        g_DR_Num p = m_DR_Num (row r) \<and> f_DR_Num f = m_DR_Num (row r) \<and>
        Diff r = Fin (f_Printed_Pages f - g_Expected_Pages p)"
    using matched_diff[of _ pos_df fuji_df] by blast
  show ?thesis
    using partition_sizes[of pos_df fuji_df] partition_distinct[of pos_df fuji_df]
      partition_unprinted[of pos_df fuji_df] partition_both[of pos_df fuji_df]
      partition_printer_only[of pos_df fuji_df] m
    by (intro conjI)
qed

theorem reconciliation_partition_witness:
  "\<lparr>row = \<lparr>m_DR_Num = 100, m_Invoice_No = Some ''DR100'', m_Customer_Name = Some ''Bob'',
              m_Expected_Pages = Some 5, m_Printed_Pages = Some 8, m_merge = both\<rparr>,
      Diff = Fin 3\<rparr> \<in> set (matched
     [\<lparr>Invoice_No = Some ''DR100'', Item_Name = Some ''DIGITAL PRINT 1 SIDE'',
       Sales_Qty = Text ''5'', Customer_Name = Some ''Bob''\<rparr>]
     [\<lparr>Job_Name = Some ''Job DR100'', Printed_Pages = Number 8, Owner = Some ''Alice'',
       Recorded = Some (1::nat)\<rparr>]) \<and>
   (\<exists>p \<in> set (pos_grouped
     [\<lparr>Invoice_No = Some ''DR100'', Item_Name = Some ''DIGITAL PRINT 1 SIDE'',
       Sales_Qty = Text ''5'', Customer_Name = Some ''Bob''\<rparr>]).
    \<exists>f \<in> set (fuji_grouped
     [\<lparr>Job_Name = Some ''Job DR100'', Printed_Pages = Number 8, Owner = Some ''Alice'',
       Recorded = Some (1::nat)\<rparr>]).
      g_DR_Num p = 100 \<and> f_DR_Num f = 100 \<and>
      Fin 3 = Fin (f_Printed_Pages f - g_Expected_Pages p))"
proof -
  have m: "matched
     [\<lparr>Invoice_No = Some ''DR100'', Item_Name = Some ''DIGITAL PRINT 1 SIDE'',
       Sales_Qty = Text ''5'', Customer_Name = Some ''Bob''\<rparr>]
     [\<lparr>Job_Name = Some ''Job DR100'', Printed_Pages = Number 8, Owner = Some ''Alice'',
       Recorded = Some (1::nat)\<rparr>] =
     [\<lparr>row = \<lparr>m_DR_Num = 100, m_Invoice_No = Some ''DR100'', m_Customer_Name = Some ''Bob'',
              m_Expected_Pages = Some 5, m_Printed_Pages = Some 8, m_merge = both\<rparr>,
      Diff = Fin 3\<rparr>]" by code_simp
  have "\<forall>r \<in> set (matched
     [\<lparr>Invoice_No = Some ''DR100'', Item_Name = Some ''DIGITAL PRINT 1 SIDE'',
       Sales_Qty = Text ''5'', Customer_Name = Some ''Bob''\<rparr>]
     [\<lparr>Job_Name = Some ''Job DR100'', Printed_Pages = Number 8, Owner = Some ''Alice'',
       Recorded = Some (1::nat)\<rparr>]).
      \<exists>p \<in> set (pos_grouped
     [\<lparr>Invoice_No = Some ''DR100'', Item_Name = Some ''DIGITAL PRINT 1 SIDE'',
       Sales_Qty = Text ''5'', Customer_Name = Some ''Bob''\<rparr>]).
      \<exists>f \<in> set (fuji_grouped
     [\<lparr>Job_Name = Some ''Job DR100'', Printed_Pages = Number 8, Owner = Some ''Alice'',
       Recorded = Some (1::nat)\<rparr>]).
        g_DR_Num p = m_DR_Num (row r) \<and> f_DR_Num f = m_DR_Num (row r) \<and>
        Diff r = Fin (f_Printed_Pages f - g_Expected_Pages p)"
    by (rule reconciliation_partition[THEN conjunct2, THEN conjunct2, THEN conjunct2,
          THEN conjunct2, THEN conjunct2])
  then show ?thesis unfolding m by simp
qed

subsection \<open>Scenarios and the proof table\<close>

text \<open>
  C5. The POS table holds invoice \<^verbatim>\<open>DR100\<close>, item \<^verbatim>\<open>DIGITAL PRINT 1 SIDE\<close>, quantity
  \<^verbatim>\<open>5\<close>; the printer log holds the job \<^verbatim>\<open>Job DR100\<close>. With 5 printed pages the number
  100 is found on both sides with difference 0 and is no mismatch. With 8 printed pages
  it is a mismatch of difference 3 and not a large one. With 20 printed pages it is a
  mismatch of difference 15 and a large one, and the proof table for it is the printer
  row.
\<close>

theorem end_to_end_DR100:
  "matched
     [\<lparr>Invoice_No = Some ''DR100'', Item_Name = Some ''DIGITAL PRINT 1 SIDE'',
       Sales_Qty = Text ''5'', Customer_Name = Some ''Bob''\<rparr>]
     [\<lparr>Job_Name = Some ''Job DR100'', Printed_Pages = Number 5, Owner = Some ''Alice'',
       Recorded = Some (1::nat)\<rparr>] =
     [\<lparr>row = \<lparr>m_DR_Num = 100, m_Invoice_No = Some ''DR100'', m_Customer_Name = Some ''Bob'',
               m_Expected_Pages = Some 5, m_Printed_Pages = Some 5, m_merge = both\<rparr>,
       Diff = Fin 0\<rparr>] \<and>
   mismatches
     [\<lparr>Invoice_No = Some ''DR100'', Item_Name = Some ''DIGITAL PRINT 1 SIDE'',
       Sales_Qty = Text ''5'', Customer_Name = Some ''Bob''\<rparr>]
     [\<lparr>Job_Name = Some ''Job DR100'', Printed_Pages = Number 5, Owner = Some ''Alice'',
       Recorded = Some (1::nat)\<rparr>] = [] \<and>
   mismatches
     [\<lparr>Invoice_No = Some ''DR100'', Item_Name = Some ''DIGITAL PRINT 1 SIDE'',
       Sales_Qty = Text ''5'', Customer_Name = Some ''Bob''\<rparr>]
     [\<lparr>Job_Name = Some ''Job DR100'', Printed_Pages = Number 8, Owner = Some ''Alice'',
       Recorded = Some (1::nat)\<rparr>] =
     [\<lparr>row = \<lparr>m_DR_Num = 100, m_Invoice_No = Some ''DR100'', m_Customer_Name = Some ''Bob'',
               m_Expected_Pages = Some 5, m_Printed_Pages = Some 8, m_merge = both\<rparr>,
       Diff = Fin 3\<rparr>] \<and>
   large_mismatches
     [\<lparr>Invoice_No = Some ''DR100'', Item_Name = Some ''DIGITAL PRINT 1 SIDE'',
       Sales_Qty = Text ''5'', Customer_Name = Some ''Bob''\<rparr>]
     [\<lparr>Job_Name = Some ''Job DR100'', Printed_Pages = Number 8, Owner = Some ''Alice'',
       Recorded = Some (1::nat)\<rparr>] = [] \<and>
   mismatches
     [\<lparr>Invoice_No = Some ''DR100'', Item_Name = Some ''DIGITAL PRINT 1 SIDE'',
       Sales_Qty = Text ''5'', Customer_Name = Some ''Bob''\<rparr>]
     [\<lparr>Job_Name = Some ''Job DR100'', Printed_Pages = Number 20, Owner = Some ''Alice'',
       Recorded = Some (1::nat)\<rparr>] =
     [\<lparr>row = \<lparr>m_DR_Num = 100, m_Invoice_No = Some ''DR100'', m_Customer_Name = Some ''Bob'',
               m_Expected_Pages = Some 5, m_Printed_Pages = Some 20, m_merge = both\<rparr>,
       Diff = Fin 15\<rparr>] \<and>
   large_mismatches
     [\<lparr>Invoice_No = Some ''DR100'', Item_Name = Some ''DIGITAL PRINT 1 SIDE'',
       Sales_Qty = Text ''5'', Customer_Name = Some ''Bob''\<rparr>]
     [\<lparr>Job_Name = Some ''Job DR100'', Printed_Pages = Number 20, Owner = Some ''Alice'',
       Recorded = Some (1::nat)\<rparr>] =
     [\<lparr>row = \<lparr>m_DR_Num = 100, m_Invoice_No = Some ''DR100'', m_Customer_Name = Some ''Bob'',
               m_Expected_Pages = Some 5, m_Printed_Pages = Some 20, m_merge = both\<rparr>,
       Diff = Fin 15\<rparr>] \<and>
   proof_table
     \<lparr>row = \<lparr>m_DR_Num = 100, m_Invoice_No = Some ''DR100'', m_Customer_Name = Some ''Bob'',
              m_Expected_Pages = Some 5, m_Printed_Pages = Some 20, m_merge = both\<rparr>,
      Diff = Fin 15\<rparr>
     [\<lparr>Job_Name = Some ''Job DR100'', Printed_Pages = Number 20, Owner = Some ''Alice'',
       Recorded = Some (1::nat)\<rparr>] =
     Some [\<lparr>p_Recorded = Some 1, p_Job_Name = Some ''Job DR100'', p_Printed_Pages = 20,
            p_Owner = Some ''Alice''\<rparr>]"
  by code_simp

text \<open>
  C10. When the number of the selected large mismatch is 0, no proof table is shown;
  for every other number the proof rows of that number are shown. A job and an invoice
  named \<^verbatim>\<open>DR0\<close> with 5 expected and 20 printed pages give a large mismatch with number 0:
  no table is shown for it, though the printer log has a row for the number 0.
\<close>

theorem proof_table_truthiness:
  "(m_DR_Num (row sel) = 0 \<longrightarrow> proof_table sel fuji_df = None) \<and>
   (m_DR_Num (row sel) \<noteq> 0 \<longrightarrow>
      proof_table sel fuji_df = Some (proof_rows (m_DR_Num (row sel)) fuji_df)) \<and>
   large_mismatches
     [\<lparr>Invoice_No = Some ''DR0'', Item_Name = Some ''DIGITAL PRINT 1 SIDE'',
       Sales_Qty = Text ''5'', Customer_Name = Some ''Bob''\<rparr>]
     [\<lparr>Job_Name = Some ''DR0'', Printed_Pages = Number 20, Owner = Some ''Alice'',
       Recorded = Some (1::nat)\<rparr>] =
     [\<lparr>row = \<lparr>m_DR_Num = 0, m_Invoice_No = Some ''DR0'', m_Customer_Name = Some ''Bob'',
               m_Expected_Pages = Some 5, m_Printed_Pages = Some 20, m_merge = both\<rparr>,
       Diff = Fin 15\<rparr>] \<and>
   proof_table
     \<lparr>row = \<lparr>m_DR_Num = 0, m_Invoice_No = Some ''DR0'', m_Customer_Name = Some ''Bob'',
              m_Expected_Pages = Some 5, m_Printed_Pages = Some 20, m_merge = both\<rparr>,
      Diff = Fin 15\<rparr>
     [\<lparr>Job_Name = Some ''DR0'', Printed_Pages = Number 20, Owner = Some ''Alice'',
       Recorded = Some (1::nat)\<rparr>] = None \<and>
   proof_rows 0
     [\<lparr>Job_Name = Some ''DR0'', Printed_Pages = Number 20, Owner = Some ''Alice'',
       Recorded = Some (1::nat)\<rparr>] =
     [\<lparr>p_Recorded = Some 1, p_Job_Name = Some ''DR0'', p_Printed_Pages = 20,
       p_Owner = Some ''Alice''\<rparr>]"
proof -
  have a: "large_mismatches
     [\<lparr>Invoice_No = Some ''DR0'', Item_Name = Some ''DIGITAL PRINT 1 SIDE'',
       Sales_Qty = Text ''5'', Customer_Name = Some ''Bob''\<rparr>]
     [\<lparr>Job_Name = Some ''DR0'', Printed_Pages = Number 20, Owner = Some ''Alice'',
       Recorded = Some (1::nat)\<rparr>] =
     [\<lparr>row = \<lparr>m_DR_Num = 0, m_Invoice_No = Some ''DR0'', m_Customer_Name = Some ''Bob'',
               m_Expected_Pages = Some 5, m_Printed_Pages = Some 20, m_merge = both\<rparr>,
       Diff = Fin 15\<rparr>]" by code_simp
  have b: "proof_table
     \<lparr>row = \<lparr>m_DR_Num = 0, m_Invoice_No = Some ''DR0'', m_Customer_Name = Some ''Bob'',
              m_Expected_Pages = Some 5, m_Printed_Pages = Some 20, m_merge = both\<rparr>,
      Diff = Fin 15\<rparr>
     [\<lparr>Job_Name = Some ''DR0'', Printed_Pages = Number 20, Owner = Some ''Alice'',
       Recorded = Some (1::nat)\<rparr>] = None" by code_simp
  have c: "proof_rows 0
     [\<lparr>Job_Name = Some ''DR0'', Printed_Pages = Number 20, Owner = Some ''Alice'',
       Recorded = Some (1::nat)\<rparr>] =
     [\<lparr>p_Recorded = Some 1, p_Job_Name = Some ''DR0'', p_Printed_Pages = 20,
       p_Owner = Some ''Alice''\<rparr>]" by code_simp
  have d1: "m_DR_Num (row sel) = 0 \<longrightarrow> proof_table sel fuji_df = None"
    by (simp add: proof_table_def)
  have d2: "m_DR_Num (row sel) \<noteq> 0 \<longrightarrow>
      proof_table sel fuji_df = Some (proof_rows (m_DR_Num (row sel)) fuji_df)"
    by (simp add: proof_table_def)
  show ?thesis by (intro conjI; fact)
qed

theorem proof_table_truthiness_witness:
  "m_DR_Num (row \<lparr>row = \<lparr>m_DR_Num = 100, m_Invoice_No = Some ''DR100'',
        m_Customer_Name = Some ''Bob'', m_Expected_Pages = Some 5, m_Printed_Pages = Some 20,
        m_merge = both\<rparr>, Diff = Fin 15\<rparr>) \<noteq> 0 \<and>
   proof_table
     \<lparr>row = \<lparr>m_DR_Num = 100, m_Invoice_No = Some ''DR100'', m_Customer_Name = Some ''Bob'',
              m_Expected_Pages = Some 5, m_Printed_Pages = Some 20, m_merge = both\<rparr>,
      Diff = Fin 15\<rparr>
     [\<lparr>Job_Name = Some ''Job DR100'', Printed_Pages = Number 20, Owner = Some ''Alice'',
       Recorded = Some (1::nat)\<rparr>] =
     Some (proof_rows 100
       [\<lparr>Job_Name = Some ''Job DR100'', Printed_Pages = Number 20, Owner = Some ''Alice'',
         Recorded = Some (1::nat)\<rparr>])"
  using proof_table_truthiness[of
     "\<lparr>row = \<lparr>m_DR_Num = 100, m_Invoice_No = Some ''DR100'', m_Customer_Name = Some ''Bob'',
              m_Expected_Pages = Some 5, m_Printed_Pages = Some 20, m_merge = both\<rparr>,
      Diff = Fin 15\<rparr>"
     "[\<lparr>Job_Name = Some ''Job DR100'', Printed_Pages = Number 20, Owner = Some ''Alice'',
       Recorded = Some (1::nat)\<rparr>]"]
  by simp

subsection \<open>The filter on item names\<close>

lemma str_contains_digital_print:
  "str_contains [''DIGITAL PRINT''] x =
     (case x of None \<Rightarrow> False | Some s \<Rightarrow> spec_contains_ci ''digital print'' s)"
proof -
  have u: "''DIGITAL PRINT'' = upper ''digital print''" by code_simp
  show ?thesis
    unfolding str_contains_def spec_contains_ci_def u
    by (simp add: str_in_upper_iff_lower split: option.splits)
qed

lemma str_contains_proof_sticker:
  "str_contains [''PROOF'', ''STICKER''] x =
     (case x of None \<Rightarrow> False
      | Some s \<Rightarrow> spec_contains_ci ''proof'' s \<or> spec_contains_ci ''sticker'' s)"
proof -
  have u: "''PROOF'' = upper ''proof''" "''STICKER'' = upper ''sticker''" by code_simp+
  show ?thesis
    unfolding str_contains_def spec_contains_ci_def u
    by (simp add: str_in_upper_iff_lower split: option.splits)
qed

lemma pos_print_spec:
  "pos_print pos_df =
     filter (\<lambda>r. case Item_Name r of None \<Rightarrow> False
                 | Some s \<Rightarrow> spec_contains_ci ''digital print'' s \<and>
                     \<not> spec_contains_ci ''proof'' s \<and> \<not> spec_contains_ci ''sticker'' s) pos_df"
  unfolding pos_print_def str_contains_digital_print str_contains_proof_sticker
  by (auto intro!: filter_cong split: option.splits)

lemma pos_grouped_cong: "pos_print a = pos_print b \<Longrightarrow> pos_grouped a = pos_grouped b"
  by (simp add: pos_grouped_def)

lemma pos_group_total:
  assumes "g \<in> set (pos_grouped pos_df)"
  shows "g_Expected_Pages g =
     agg_sum (map calc_pages (filter (\<lambda>r. pos_DR_Num r = Some (g_DR_Num g)) (pos_print pos_df)))"
  using assms by (auto simp: pos_grouped_def Let_def)

text \<open>
  C8. The aggregated POS groups of a table are those of the table restricted to the
  rows whose item name contains \<^verbatim>\<open>digital print\<close> and neither \<^verbatim>\<open>proof\<close> nor \<^verbatim>\<open>sticker\<close>,
  letters compared without regard to case; and the total of every group is the sum of
  the expected pages of exactly the rows of the table that carry the group's number and
  pass this filter. Rows with \<^verbatim>\<open>proof\<close> or \<^verbatim>\<open>sticker\<close> in the name so contribute to no
  total.
\<close>

theorem pos_grouped_filter_first:
  "pos_grouped pos_df =
     pos_grouped (filter (\<lambda>r. case Item_Name r of None \<Rightarrow> False
                 | Some s \<Rightarrow> spec_contains_ci ''digital print'' s \<and>
                     \<not> spec_contains_ci ''proof'' s \<and> \<not> spec_contains_ci ''sticker'' s) pos_df) \<and>
   (\<forall>g \<in> set (pos_grouped pos_df).
      g_Expected_Pages g =
        agg_sum (map calc_pages
          (filter (\<lambda>r. pos_DR_Num r = Some (g_DR_Num g))
            (filter (\<lambda>r. case Item_Name r of None \<Rightarrow> False
                 | Some s \<Rightarrow> spec_contains_ci ''digital print'' s \<and>
                     \<not> spec_contains_ci ''proof'' s \<and> \<not> spec_contains_ci ''sticker'' s) pos_df))))"
proof -
  let ?keep = "\<lambda>r. case Item_Name r of None \<Rightarrow> False
                 | Some s \<Rightarrow> spec_contains_ci ''digital print'' s \<and>
                     \<not> spec_contains_ci ''proof'' s \<and> \<not> spec_contains_ci ''sticker'' s"
  have "pos_print (filter ?keep pos_df) = filter ?keep (filter ?keep pos_df)"
    by (rule pos_print_spec)
  also have "\<dots> = filter ?keep pos_df" by simp
  also have "\<dots> = pos_print pos_df" by (rule pos_print_spec[symmetric])
  finally have "pos_grouped (filter ?keep pos_df) = pos_grouped pos_df"
    by (rule pos_grouped_cong)
  then have a: "pos_grouped pos_df = pos_grouped (filter ?keep pos_df)" by simp
  have b: "\<forall>g \<in> set (pos_grouped pos_df).
      g_Expected_Pages g =
        agg_sum (map calc_pages
          (filter (\<lambda>r. pos_DR_Num r = Some (g_DR_Num g)) (filter ?keep pos_df)))"
    using pos_group_total[of _ pos_df] unfolding pos_print_spec by blast
  from a b show ?thesis by (rule conjI)
qed

theorem pos_grouped_filter_first_witness:
  "\<lparr>g_DR_Num = 7, g_Invoice_No = Some ''DR7'', g_Customer_Name = Some ''Bob'',
    g_Expected_Pages = 5\<rparr> \<in> set (pos_grouped
     [\<lparr>Invoice_No = Some ''DR7'', Item_Name = Some ''Digital Print A4'',
       Sales_Qty = Text ''5'', Customer_Name = Some ''Bob''\<rparr>,
      \<lparr>Invoice_No = Some ''DR7'', Item_Name = Some ''Digital Print Sticker'',
       Sales_Qty = Text ''100'', Customer_Name = Some ''Bob''\<rparr>,
      \<lparr>Invoice_No = Some ''DR7'', Item_Name = Some ''DIGITAL PRINT proof'',
       Sales_Qty = Text ''30'', Customer_Name = Some ''Bob''\<rparr>]) \<and>
   agg_sum (map calc_pages
     (filter (\<lambda>r. pos_DR_Num r = Some 7)
       (filter (\<lambda>r. case Item_Name r of None \<Rightarrow> False
                 | Some s \<Rightarrow> spec_contains_ci ''digital print'' s \<and>
                     \<not> spec_contains_ci ''proof'' s \<and> \<not> spec_contains_ci ''sticker'' s)
     [\<lparr>Invoice_No = Some ''DR7'', Item_Name = Some ''Digital Print A4'',
       Sales_Qty = Text ''5'', Customer_Name = Some ''Bob''\<rparr>,
      \<lparr>Invoice_No = Some ''DR7'', Item_Name = Some ''Digital Print Sticker'',
       Sales_Qty = Text ''100'', Customer_Name = Some ''Bob''\<rparr>,
      \<lparr>Invoice_No = Some ''DR7'', Item_Name = Some ''DIGITAL PRINT proof'',
       Sales_Qty = Text ''30'', Customer_Name = Some ''Bob''\<rparr>]))) = 5"
proof -
  have m: "pos_grouped
     [\<lparr>Invoice_No = Some ''DR7'', Item_Name = Some ''Digital Print A4'',
       Sales_Qty = Text ''5'', Customer_Name = Some ''Bob''\<rparr>,
      \<lparr>Invoice_No = Some ''DR7'', Item_Name = Some ''Digital Print Sticker'',
       Sales_Qty = Text ''100'', Customer_Name = Some ''Bob''\<rparr>,
      \<lparr>Invoice_No = Some ''DR7'', Item_Name = Some ''DIGITAL PRINT proof'',
       Sales_Qty = Text ''30'', Customer_Name = Some ''Bob''\<rparr>] =
     [\<lparr>g_DR_Num = 7, g_Invoice_No = Some ''DR7'', g_Customer_Name = Some ''Bob'',
       g_Expected_Pages = 5\<rparr>]" by code_simp
  from pos_grouped_filter_first[THEN conjunct2, of
     "[\<lparr>Invoice_No = Some ''DR7'', Item_Name = Some ''Digital Print A4'',
       Sales_Qty = Text ''5'', Customer_Name = Some ''Bob''\<rparr>,
      \<lparr>Invoice_No = Some ''DR7'', Item_Name = Some ''Digital Print Sticker'',
       Sales_Qty = Text ''100'', Customer_Name = Some ''Bob''\<rparr>,
      \<lparr>Invoice_No = Some ''DR7'', Item_Name = Some ''DIGITAL PRINT proof'',
       Sales_Qty = Text ''30'', Customer_Name = Some ''Bob''\<rparr>]"]
  show ?thesis unfolding m by simp
qed

subsection \<open>POS rows without an identifier\<close>

lemma dropna_map_filter: "dropna (map f (filter (\<lambda>r. f r \<noteq> None) xs)) = dropna (map f xs)"
proof (induction xs)
  case Nil then show ?case by simp
next
  case (Cons a xs)
  then show ?case by (cases "f a") auto
qed

lemma filter_Some_filter:
  "filter (\<lambda>r. f r = Some k) (filter (\<lambda>r. f r \<noteq> None) xs) = filter (\<lambda>r. f r = Some k) xs"
  by (induction xs) auto

lemma pos_print_filter: "pos_print (filter Q pos_df) = filter Q (pos_print pos_df)"
  unfolding pos_print_def by (induction pos_df) auto

lemma pos_grouped_dropna:
  "pos_grouped (filter (\<lambda>r. pos_DR_Num r \<noteq> None) pos_df) = pos_grouped pos_df"
  unfolding pos_grouped_def Let_def pos_print_filter group_keys_def
  by (simp only: dropna_map_filter filter_Some_filter)

lemma dropna_mem: "k \<in> set (dropna xs) \<Longrightarrow> Some k \<in> set xs"
  by (induction xs rule: dropna.induct) auto

lemma unprinted_source:
  assumes "r \<in> set (unprinted pos_df fuji_df)"
  shows "\<exists>p \<in> set (pos_print pos_df). pos_DR_Num p = Some (m_DR_Num r)"
proof -
  from assms have "m_DR_Num r \<in> set (map m_DR_Num (unprinted pos_df fuji_df))" by simp
  then have "m_DR_Num r \<in> set (map g_DR_Num (pos_grouped pos_df))"
    unfolding partition_unprinted by simp
  then have "m_DR_Num r \<in> set (dropna (map pos_DR_Num (pos_print pos_df)))"
    unfolding pos_grouped_keys group_keys_def by simp
  then have "Some (m_DR_Num r) \<in> set (map pos_DR_Num (pos_print pos_df))"
    by (rule dropna_mem)
  then show ?thesis by auto
qed

text \<open>
  C3, as amended. A POS row whose invoice field yields no identifier is dropped by the
  aggregation, which skips missing keys: the aggregated groups, the join, the unprinted
  rows and the rows found on both sides are those of the table without such rows, and
  every unprinted row carries the identifier of a retained POS row that has one.
\<close>

theorem absent_identifier_dropped:
  "pos_grouped pos_df = pos_grouped (filter (\<lambda>r. pos_DR_Num r \<noteq> None) pos_df) \<and>
   merged pos_df fuji_df = merged (filter (\<lambda>r. pos_DR_Num r \<noteq> None) pos_df) fuji_df \<and>
   unprinted pos_df fuji_df = unprinted (filter (\<lambda>r. pos_DR_Num r \<noteq> None) pos_df) fuji_df \<and>
   matched pos_df fuji_df = matched (filter (\<lambda>r. pos_DR_Num r \<noteq> None) pos_df) fuji_df \<and>
   (\<forall>r \<in> set (unprinted pos_df fuji_df).
      \<exists>p \<in> set (pos_print pos_df). pos_DR_Num p = Some (m_DR_Num r))"
proof -
  have a: "pos_grouped pos_df = pos_grouped (filter (\<lambda>r. pos_DR_Num r \<noteq> None) pos_df)"
    by (rule pos_grouped_dropna[symmetric])
  have b: "merged pos_df fuji_df = merged (filter (\<lambda>r. pos_DR_Num r \<noteq> None) pos_df) fuji_df"
    unfolding merged_def pos_grouped_dropna by (rule refl)
  have c: "unprinted pos_df fuji_df = unprinted (filter (\<lambda>r. pos_DR_Num r \<noteq> None) pos_df) fuji_df"
    unfolding unprinted_def merged_def pos_grouped_dropna by (rule refl)
  have d: "matched pos_df fuji_df = matched (filter (\<lambda>r. pos_DR_Num r \<noteq> None) pos_df) fuji_df"
    unfolding matched_def merged_def pos_grouped_dropna by (rule refl)
  have e: "\<forall>r \<in> set (unprinted pos_df fuji_df).
      \<exists>p \<in> set (pos_print pos_df). pos_DR_Num p = Some (m_DR_Num r)"
    using unprinted_source[of _ pos_df fuji_df] by blast
  show ?thesis by (intro conjI; fact)
qed

theorem absent_identifier_dropped_witness:
  "\<lparr>m_DR_Num = 7, m_Invoice_No = Some ''DR7'', m_Customer_Name = Some ''Bob'',
    m_Expected_Pages = Some 5, m_Printed_Pages = None, m_merge = left_only\<rparr>
     \<in> set (unprinted
       [\<lparr>Invoice_No = Some ''INV-999'', Item_Name = Some ''DIGITAL PRINT 1 SIDE'',
         Sales_Qty = Text ''9'', Customer_Name = Some ''Ann''\<rparr>,
        \<lparr>Invoice_No = Some ''DR7'', Item_Name = Some ''DIGITAL PRINT 1 SIDE'',
         Sales_Qty = Text ''5'', Customer_Name = Some ''Bob''\<rparr>]
       ([] :: nat fuji_row list)) \<and>
   (\<exists>p \<in> set (pos_print
       [\<lparr>Invoice_No = Some ''INV-999'', Item_Name = Some ''DIGITAL PRINT 1 SIDE'',
         Sales_Qty = Text ''9'', Customer_Name = Some ''Ann''\<rparr>,
        \<lparr>Invoice_No = Some ''DR7'', Item_Name = Some ''DIGITAL PRINT 1 SIDE'',
         Sales_Qty = Text ''5'', Customer_Name = Some ''Bob''\<rparr>]).
      pos_DR_Num p = Some 7)"
proof -
  have m: "unprinted
       [\<lparr>Invoice_No = Some ''INV-999'', Item_Name = Some ''DIGITAL PRINT 1 SIDE'',
         Sales_Qty = Text ''9'', Customer_Name = Some ''Ann''\<rparr>,
        \<lparr>Invoice_No = Some ''DR7'', Item_Name = Some ''DIGITAL PRINT 1 SIDE'',
         Sales_Qty = Text ''5'', Customer_Name = Some ''Bob''\<rparr>]
       ([] :: nat fuji_row list) =
     [\<lparr>m_DR_Num = 7, m_Invoice_No = Some ''DR7'', m_Customer_Name = Some ''Bob'',
       m_Expected_Pages = Some 5, m_Printed_Pages = None, m_merge = left_only\<rparr>]"
    by code_simp
  from absent_identifier_dropped[THEN conjunct2, THEN conjunct2, THEN conjunct2, THEN conjunct2, of
       "[\<lparr>Invoice_No = Some ''INV-999'', Item_Name = Some ''DIGITAL PRINT 1 SIDE'',
         Sales_Qty = Text ''9'', Customer_Name = Some ''Ann''\<rparr>,
        \<lparr>Invoice_No = Some ''DR7'', Item_Name = Some ''DIGITAL PRINT 1 SIDE'',
         Sales_Qty = Text ''5'', Customer_Name = Some ''Bob''\<rparr>]" "[] :: nat fuji_row list"]
  show ?thesis unfolding m by simp
qed

text \<open>Of two retained [\<lparr>Invoice_No = Some ''INV-999'', Item_Name = Some ''DIGITAL PRINT 1 SIDE'',
       Sales_Qty = Text ''9'', Customer_Name = Some ''Ann''\<rparr>,
      \<lparr>Invoice_No = Some ''DR7'', Item_Name = Some ''DIGITAL PRINT 1 SIDE'',
       Sales_Qty = Text ''5'', Customer_Name = Some ''Bob''\<rparr>] rows with the invoices \<^verbatim>\<open>INV-999\<close> and \<^verbatim>\<open>DR7\<close>, neither
  matched by the printer log, only the second forms a group and is among the unprinted
  rows: the claim C3 places the first there as well.\<close>

theorem absent_identifier_not_unprinted:
  "pos_print
     [\<lparr>Invoice_No = Some ''INV-999'', Item_Name = Some ''DIGITAL PRINT 1 SIDE'',
       Sales_Qty = Text ''9'', Customer_Name = Some ''Ann''\<rparr>,
      \<lparr>Invoice_No = Some ''DR7'', Item_Name = Some ''DIGITAL PRINT 1 SIDE'',
       Sales_Qty = Text ''5'', Customer_Name = Some ''Bob''\<rparr>] =
     [\<lparr>Invoice_No = Some ''INV-999'', Item_Name = Some ''DIGITAL PRINT 1 SIDE'',
       Sales_Qty = Text ''9'', Customer_Name = Some ''Ann''\<rparr>,
      \<lparr>Invoice_No = Some ''DR7'', Item_Name = Some ''DIGITAL PRINT 1 SIDE'',
       Sales_Qty = Text ''5'', Customer_Name = Some ''Bob''\<rparr>] \<and>
   pos_DR_Num \<lparr>Invoice_No = Some ''INV-999'', Item_Name = Some ''DIGITAL PRINT 1 SIDE'',
                Sales_Qty = Text ''9'', Customer_Name = Some ''Ann''\<rparr> = None \<and>
   pos_grouped
     [\<lparr>Invoice_No = Some ''INV-999'', Item_Name = Some ''DIGITAL PRINT 1 SIDE'',
       Sales_Qty = Text ''9'', Customer_Name = Some ''Ann''\<rparr>,
      \<lparr>Invoice_No = Some ''DR7'', Item_Name = Some ''DIGITAL PRINT 1 SIDE'',
       Sales_Qty = Text ''5'', Customer_Name = Some ''Bob''\<rparr>] =
     [\<lparr>g_DR_Num = 7, g_Invoice_No = Some ''DR7'', g_Customer_Name = Some ''Bob'',
       g_Expected_Pages = 5\<rparr>] \<and>
   unprinted
     [\<lparr>Invoice_No = Some ''INV-999'', Item_Name = Some ''DIGITAL PRINT 1 SIDE'',
       Sales_Qty = Text ''9'', Customer_Name = Some ''Ann''\<rparr>,
      \<lparr>Invoice_No = Some ''DR7'', Item_Name = Some ''DIGITAL PRINT 1 SIDE'',
       Sales_Qty = Text ''5'', Customer_Name = Some ''Bob''\<rparr>]
     [\<lparr>Job_Name = Some ''Job DR100'', Printed_Pages = Number 5, Owner = Some ''Alice'',
       Recorded = Some (1::nat)\<rparr>] =
     [\<lparr>m_DR_Num = 7, m_Invoice_No = Some ''DR7'', m_Customer_Name = Some ''Bob'',
       m_Expected_Pages = Some 5, m_Printed_Pages = None, m_merge = left_only\<rparr>] \<and>
   matched
     [\<lparr>Invoice_No = Some ''INV-999'', Item_Name = Some ''DIGITAL PRINT 1 SIDE'',
       Sales_Qty = Text ''9'', Customer_Name = Some ''Ann''\<rparr>,
      \<lparr>Invoice_No = Some ''DR7'', Item_Name = Some ''DIGITAL PRINT 1 SIDE'',
       Sales_Qty = Text ''5'', Customer_Name = Some ''Bob''\<rparr>]
     [\<lparr>Job_Name = Some ''Job DR100'', Printed_Pages = Number 5, Owner = Some ''Alice'',
       Recorded = Some (1::nat)\<rparr>] = []"
  by code_simp

subsection \<open>The threshold of the proof section\<close>

lemma abs_gt_iff: "abs_gt x t \<longleftrightarrow> (\<exists>d. x = Fin d \<and> \<bar>d\<bar> > t)"
  by (cases x) (auto simp: abs_gt_def)

lemma mismatch_diff:
  assumes "r \<in> set (mismatches pos_df fuji_df)"
  shows "\<exists>e p. m_Expected_Pages (row r) = Some e \<and> m_Printed_Pages (row r) = Some p \<and>
           Diff r = Fin (p - e) \<and> p \<noteq> e \<and>
           (r \<in> set (large_mismatches pos_df fuji_df) \<longleftrightarrow> \<bar>p - e\<bar> > 10)"
proof -
  from assms have m: "r \<in> set (matched pos_df fuji_df)" and nz: "Diff r \<noteq> Fin 0"
    by (auto simp: mismatches_def)
  from matched_diff[OF m] obtain p :: pos_group and f :: fuji_group where
    e: "m_Expected_Pages (row r) = Some (g_Expected_Pages p)"
    and q: "m_Printed_Pages (row r) = Some (f_Printed_Pages f)"
    and d: "Diff r = Fin (f_Printed_Pages f - g_Expected_Pages p)" by blast
  from d nz have ne: "f_Printed_Pages f \<noteq> g_Expected_Pages p" by auto
  have "r \<in> set (large_mismatches pos_df fuji_df) \<longleftrightarrow> \<bar>f_Printed_Pages f - g_Expected_Pages p\<bar> > 10"
    using assms d by (simp add: large_mismatches_def abs_gt_def)
  with e q d ne show ?thesis by blast
qed

text \<open>
  C7, as amended. The threshold is the constant 10 of line 136; the program has no
  option for it. The rows offered for the proof table are exactly the mismatches whose
  difference exceeds 10 in absolute value, in the order of the mismatches; the
  difference of a mismatch is the printed total minus the expected total of its row,
  and is not 0.
\<close>

theorem large_mismatches_threshold_10:
  "large_mismatches pos_df fuji_df =
     filter (\<lambda>r. \<exists>d. Diff r = Fin d \<and> \<bar>d\<bar> > 10) (mismatches pos_df fuji_df) \<and>
   (\<forall>r \<in> set (mismatches pos_df fuji_df).
      \<exists>e p. m_Expected_Pages (row r) = Some e \<and> m_Printed_Pages (row r) = Some p \<and>
        Diff r = Fin (p - e) \<and> p \<noteq> e \<and>
        (r \<in> set (large_mismatches pos_df fuji_df) \<longleftrightarrow> \<bar>p - e\<bar> > 10))"
proof -
  have a: "large_mismatches pos_df fuji_df =
     filter (\<lambda>r. \<exists>d. Diff r = Fin d \<and> \<bar>d\<bar> > 10) (mismatches pos_df fuji_df)"
    by (simp add: large_mismatches_def abs_gt_iff)
  have b: "\<forall>r \<in> set (mismatches pos_df fuji_df).
      \<exists>e p. m_Expected_Pages (row r) = Some e \<and> m_Printed_Pages (row r) = Some p \<and>
        Diff r = Fin (p - e) \<and> p \<noteq> e \<and>
        (r \<in> set (large_mismatches pos_df fuji_df) \<longleftrightarrow> \<bar>p - e\<bar> > 10)"
    using mismatch_diff[of _ pos_df fuji_df] by blast
  from a b show ?thesis by (rule conjI)
qed

theorem large_mismatches_threshold_10_witness:
  "\<lparr>row = \<lparr>m_DR_Num = 100, m_Invoice_No = Some ''DR100'', m_Customer_Name = Some ''Bob'',
            m_Expected_Pages = Some 5, m_Printed_Pages = Some 20, m_merge = both\<rparr>,
    Diff = Fin 15\<rparr> \<in> set (mismatches
     [\<lparr>Invoice_No = Some ''DR100'', Item_Name = Some ''DIGITAL PRINT 1 SIDE'',
       Sales_Qty = Text ''5'', Customer_Name = Some ''Bob''\<rparr>]
     [\<lparr>Job_Name = Some ''Job DR100'', Printed_Pages = Number 20, Owner = Some ''Alice'',
       Recorded = Some (1::nat)\<rparr>]) \<and>
   \<lparr>row = \<lparr>m_DR_Num = 100, m_Invoice_No = Some ''DR100'', m_Customer_Name = Some ''Bob'',
            m_Expected_Pages = Some 5, m_Printed_Pages = Some 20, m_merge = both\<rparr>,
    Diff = Fin 15\<rparr> \<in> set (large_mismatches
     [\<lparr>Invoice_No = Some ''DR100'', Item_Name = Some ''DIGITAL PRINT 1 SIDE'',
       Sales_Qty = Text ''5'', Customer_Name = Some ''Bob''\<rparr>]
     [\<lparr>Job_Name = Some ''Job DR100'', Printed_Pages = Number 20, Owner = Some ''Alice'',
       Recorded = Some (1::nat)\<rparr>])"
proof -
  have m: "mismatches
     [\<lparr>Invoice_No = Some ''DR100'', Item_Name = Some ''DIGITAL PRINT 1 SIDE'',
       Sales_Qty = Text ''5'', Customer_Name = Some ''Bob''\<rparr>]
     [\<lparr>Job_Name = Some ''Job DR100'', Printed_Pages = Number 20, Owner = Some ''Alice'',
       Recorded = Some (1::nat)\<rparr>] =
     [\<lparr>row = \<lparr>m_DR_Num = 100, m_Invoice_No = Some ''DR100'', m_Customer_Name = Some ''Bob'',
               m_Expected_Pages = Some 5, m_Printed_Pages = Some 20, m_merge = both\<rparr>,
       Diff = Fin 15\<rparr>]" by code_simp
  from large_mismatches_threshold_10[THEN conjunct2, of
     "[\<lparr>Invoice_No = Some ''DR100'', Item_Name = Some ''DIGITAL PRINT 1 SIDE'',
       Sales_Qty = Text ''5'', Customer_Name = Some ''Bob''\<rparr>]"
     "[\<lparr>Job_Name = Some ''Job DR100'', Printed_Pages = Number 20, Owner = Some ''Alice'',
       Recorded = Some (1::nat)\<rparr>]"]
  show ?thesis unfolding m by simp
qed

text \<open>With 5 expected and 13 printed pages the difference is 8: a threshold of 5, were it
  an option as the claim C7 has it, would offer the row; the program offers none.\<close>

theorem large_mismatches_ignores_other_threshold:
  "filter (\<lambda>r. abs_gt (Diff r) 5) (mismatches
     [\<lparr>Invoice_No = Some ''DR100'', Item_Name = Some ''DIGITAL PRINT 1 SIDE'',
       Sales_Qty = Text ''5'', Customer_Name = Some ''Bob''\<rparr>]
     [\<lparr>Job_Name = Some ''Job DR100'', Printed_Pages = Number 13, Owner = Some ''Alice'',
       Recorded = Some (1::nat)\<rparr>]) =
     [\<lparr>row = \<lparr>m_DR_Num = 100, m_Invoice_No = Some ''DR100'', m_Customer_Name = Some ''Bob'',
               m_Expected_Pages = Some 5, m_Printed_Pages = Some 13, m_merge = both\<rparr>,
       Diff = Fin 8\<rparr>] \<and>
   large_mismatches
     [\<lparr>Invoice_No = Some ''DR100'', Item_Name = Some ''DIGITAL PRINT 1 SIDE'',
       Sales_Qty = Text ''5'', Customer_Name = Some ''Bob''\<rparr>]
     [\<lparr>Job_Name = Some ''Job DR100'', Printed_Pages = Number 13, Owner = Some ''Alice'',
       Recorded = Some (1::nat)\<rparr>] = []"
  by code_simp

subsection \<open>The anonymous summary\<close>














end
